theory Spec2Isabelle
  imports Main "HOL-Library.Word"
begin

unbundle bit_operations_syntax

section \<open>Field arithmetic\<close>

text \<open>
  Modelled from the spec: the field-arithmetic module \<open>Fp(p)\<close> of \<open>core/ec\<close> is imported by
  the X25519/X448 source but is not among the source files.  The spec describes it as
  "modular add, subtract, multiply, and exponentiation over a prime field" and says of the
  ladder that "all arithmetic is modulo \<open>p\<close>".  JavaScript bigints are unbounded, so they
  are \<open>int\<close>; results are the least non-negative residues.
\<close>

definition Fp_plus :: "int \<Rightarrow> int \<Rightarrow> int \<Rightarrow> int" where
  "Fp_plus p a b = (a + b) mod p"

definition Fp_subtract :: "int \<Rightarrow> int \<Rightarrow> int \<Rightarrow> int" where
  "Fp_subtract p a b = (a - b) mod p"

definition Fp_multiply :: "int \<Rightarrow> int \<Rightarrow> int \<Rightarrow> int" where
  "Fp_multiply p a b = (a * b) mod p"

definition Fp_pow :: "int \<Rightarrow> int \<Rightarrow> int \<Rightarrow> int" where
  "Fp_pow p a e = (a ^ nat e) mod p"

section \<open>Conditional swap and the Montgomery ladder\<close>

text \<open>
  \<open>cSwap(swap, x_2, x_3)\<close>: \<open>mask = -swap\<close>, \<open>dummy = mask & (x_2 ^ x_3)\<close>, both values
  are xor-ed with \<open>dummy\<close>.  Bigint bit operations are two's complement on unbounded
  integers, as \<open>AND\<close>, \<open>XOR\<close> on \<open>int\<close> are.
\<close>

definition cSwap :: "int \<Rightarrow> int \<Rightarrow> int \<Rightarrow> int \<times> int" where
  "cSwap swap x_2 x_3 =
     (let mask = - swap;
          dummy = mask AND (x_2 XOR x_3)
      in (x_2 XOR dummy, x_3 XOR dummy))"

text \<open>
  The local variables of \<open>ladder\<close> that live across loop iterations:
  \<open>(x_2, z_2, x_3, z_3, swap)\<close>.
\<close>

type_synonym ladder_vars = "int \<times> int \<times> int \<times> int \<times> int"

text \<open>The body of the \<open>for\<close> loop at index \<open>i\<close>; \<open>k >> i\<close> is \<open>drop_bit\<close>.\<close>

definition ladder_body :: "int \<Rightarrow> int \<Rightarrow> int \<Rightarrow> int \<Rightarrow> int \<Rightarrow> ladder_vars \<Rightarrow> ladder_vars" where
  "ladder_body k u p a24 i vars =
     (case vars of (x_2, z_2, x_3, z_3, swap) \<Rightarrow>
        let k_t = drop_bit (nat i) k AND 1;
            swap = swap XOR k_t;
            (x_2, x_3) = cSwap swap x_2 x_3;
            (z_2, z_3) = cSwap swap z_2 z_3;
            swap = k_t;
            A = Fp_plus p x_2 z_2;
            AA = Fp_pow p A 2;
            B = Fp_subtract p x_2 z_2;
            BB = Fp_pow p B 2;
            E = Fp_subtract p AA BB;
            C = Fp_plus p x_3 z_3;
            D = Fp_subtract p x_3 z_3;
            DA = Fp_multiply p D A;
            CB = Fp_multiply p C B;
            x_3 = Fp_pow p (Fp_plus p DA CB) 2;
            z_3 = Fp_multiply p u (Fp_pow p (Fp_subtract p DA CB) 2);
            x_2 = Fp_multiply p AA BB;
            z_2 = Fp_multiply p E (Fp_plus p AA (Fp_multiply p E a24))
        in (x_2, z_2, x_3, z_3, swap))"

text \<open>\<open>for (let i = bit - 1n; i >= 0n; i--)\<close>\<close>

function ladder_loop :: "int \<Rightarrow> int \<Rightarrow> int \<Rightarrow> int \<Rightarrow> int \<Rightarrow> ladder_vars \<Rightarrow> ladder_vars" where
  "ladder_loop k u p a24 i vars =
     (if i \<ge> 0 then ladder_loop k u p a24 (i - 1) (ladder_body k u p a24 i vars) else vars)"
  by pat_completeness auto
termination
  by (relation "measure (\<lambda>(k, u, p, a24, i, vars). nat (i + 1))") auto

declare ladder_loop.simps [simp del]

definition ladder :: "int \<Rightarrow> int \<Rightarrow> int \<Rightarrow> int \<Rightarrow> int \<Rightarrow> int" where
  "ladder k u p a24 bit' =
     (case ladder_loop k u p a24 (bit' - 1) (1, 0, u, 1, 0) of (x_2, z_2, x_3, z_3, swap) \<Rightarrow>
        let (x_2, x_3) = cSwap swap x_2 x_3;
            (z_2, z_3) = cSwap swap z_2 z_3
        in Fp_multiply p x_2 (Fp_pow p z_2 (p - 2)))"

section \<open>Scalar clamping\<close>

definition x25519_clamp :: "int \<Rightarrow> int" where
  "x25519_clamp d =
     (let d = d AND 0x7FFFFFFFFFFFFFFFFFFFFFFFFFFFFFFFFFFFFFFFFFFFFFFFFFFFFFFFFFFFFFF8;
          d = d OR 0x4000000000000000000000000000000000000000000000000000000000000000
      in d)"

definition x448_clamp :: "int \<Rightarrow> int" where
  "x448_clamp d =
     (let d = d AND 0xFFFFFFFFFFFFFFFFFFFFFFFFFFFFFFFFFFFFFFFFFFFFFFFFFFFFFFFFFFFFFFFFFFFFFFFFFFFFFFFFFFFFFFFFFFFFFFFFFFFFFFFFFFFFFFFC;
          d = d OR 0x8000000000000000000000000000000000000000000000000000000000000000000000000000000000000000000000000000000000000000
      in d)"


section \<open>Byte arrays and the integer codec\<close>

text \<open>\<open>U8\<close> extends \<open>Uint8Array\<close>: a sequence of bytes.\<close>

type_synonym U8 = "8 word list"

text \<open>
  Modelled from the spec: class \<open>U8\<close> of \<open>core/utils\<close> is not among the source files.
  The spec lists "integer-to-fixed-width-byte and byte-to-integer codecs (little-endian)".
  \<open>toBI\<close> reads the bytes as a little-endian unsigned integer.
\<close>

fun U8_toBI :: "U8 \<Rightarrow> int" where
  "U8_toBI [] = 0"
| "U8_toBI (b # bs) = uint b + 256 * U8_toBI bs"

text \<open>
  Modelled from the spec: \<open>U8.fromBI(x)\<close> is the little-endian encoder of the same codec.
  Every call in the source passes the integer alone, with no width, and both curves call
  the same function, so the width cannot be the curve's: the encoder yields the bytes of
  \<open>x\<close> up to its most significant non-zero byte.  (\<open>gen\<close> copies that result into a
  zero-filled array of the curve's width; \<open>ecdh\<close> returns it as it is.)
\<close>

function U8_fromBI :: "int \<Rightarrow> U8" where
  "U8_fromBI x = (if x \<le> 0 then [] else word_of_int x # U8_fromBI (x div 256))"
  by pat_completeness auto
termination
  by (relation "measure nat") auto

declare U8_fromBI.simps [simp del]

text \<open>\<open>U8.from(bytes)\<close> copies a byte array; \<open>new U8(n)\<close> is \<open>n\<close> zero bytes.\<close>

definition U8_from :: "U8 \<Rightarrow> U8" where
  "U8_from b = b"

definition U8_new :: "nat \<Rightarrow> U8" where
  "U8_new n = replicate n 0"

datatype error = KitError string | RangeError

text \<open>
  \<open>Q.set(src)\<close> of a typed array writes \<open>src\<close> at offset 0 and keeps the rest of \<open>Q\<close>;
  it throws a \<open>RangeError\<close> when \<open>src\<close> is longer than \<open>Q\<close>.
\<close>

definition U8_set :: "U8 \<Rightarrow> U8 \<Rightarrow> error + U8" where
  "U8_set Q src =
     (if length Q < length src then Inl RangeError
      else Inr (src @ drop (length src) Q))"

text \<open>
  Modelled from the spec: \<open>getBIBits\<close> of \<open>core/utils\<close> is not among the source files;
  the spec calls it "a bit-length function over arbitrary-precision integers".
\<close>

function getBIBits :: "int \<Rightarrow> nat" where
  "getBIBits n = (if n \<le> 0 then 0 else Suc (getBIBits (n div 2)))"
  by pat_completeness auto
termination
  by (relation "measure nat") auto

declare getBIBits.simps [simp del]

section \<open>Curve domain parameters\<close>

text \<open>
  Modelled from the spec: the tables \<open>curve25519\<close> and \<open>curve448\<close> of \<open>core/ecParams\<close>
  are not among the source files.  The spec describes them as the per-curve constants
  "prime modulus, generator u-coordinate, group order" of the 255-bit and the 448-bit
  Montgomery curve of RFC 7748; the values are those of the RFC.  Only the fields the
  X25519/X448 code reads are kept (\<open>p\<close>, \<open>G.x\<close>, \<open>n\<close>); \<open>G.x\<close> is held as its integer
  value.
\<close>

record curve =
  curve_p :: int
  curve_Gx :: int
  curve_n :: int

definition curve25519 :: curve where
  "curve25519 =
     \<lparr> curve_p = 2 ^ 255 - 19,
       curve_Gx = 9,
       curve_n = 2 ^ 252 + 27742317777372353535851937790883648493 \<rparr>"

definition curve448 :: curve where
  "curve448 =
     \<lparr> curve_p = 2 ^ 448 - 2 ^ 224 - 1,
       curve_Gx = 5,
       curve_n = 2 ^ 446 - 13818066809895115352007386748515426880336692474882178609894547503885 \<rparr>"

section \<open>Keys and the public operations\<close>

text \<open>
  A key field has type \<open>bigint | Uint8Array\<close>.  \<open>gen\<close> has three call shapes (its
  overloads); it returns a key pair \<open>{Q, d}\<close> or a private key \<open>{d}\<close> of byte arrays.
\<close>

datatype key = BI int | Bytes U8

datatype gen_call = key_pair | private_key | public_key key

datatype gen_result = KeyPair (key_Q: U8) (key_d: U8) | PrivateKey (key_d: U8)

text \<open>
  \<open>ec.gen('private_key').d\<close> draws a fresh private key from the random source of
  \<open>FpECC\<close>, which is not among the source files.  It is a parameter of the model: a
  function from the state of the random source to the drawn bytes and the next state.
\<close>

type_synonym 's ec_gen = "'s \<Rightarrow> U8 \<times> 's"

subsection \<open>x25519\<close>

definition x25519_p_bit :: nat where
  "x25519_p_bit = getBIBits (curve_p curve25519)"

definition x25519_p_byte :: nat where
  "x25519_p_byte = drop_bit 3 (x25519_p_bit + 7)"

definition x25519_a24 :: int where
  "x25519_a24 = 121665"

fun x25519_gen :: "'s ec_gen \<Rightarrow> gen_call \<Rightarrow> 's \<Rightarrow> (error + gen_result) \<times> 's" where
  "x25519_gen ec_gen key_pair s =
     (let (d_buffer, s) = ec_gen s;
          d = U8_toBI d_buffer;
          x = ladder (x25519_clamp d) (curve_Gx curve25519) (curve_p curve25519) x25519_a24 255
      in case U8_set (U8_new x25519_p_byte) (U8_fromBI x) of
           Inl e \<Rightarrow> (Inl e, s)
         | Inr Q \<Rightarrow> (Inr (KeyPair Q d_buffer), s))"
| "x25519_gen ec_gen private_key s =
     (let (d_buffer, s) = ec_gen s in (Inr (PrivateKey d_buffer), s))"
| "x25519_gen ec_gen (public_key s_key) s =
     (let d_buffer = (case s_key of BI d \<Rightarrow> U8_fromBI d | Bytes b \<Rightarrow> U8_from b);
          d = U8_toBI d_buffer
      in if d = 0 then (Inl (KitError ''Invalid private key''), s)
         else
           let x = ladder (x25519_clamp d) (curve_Gx curve25519) (curve_p curve25519) x25519_a24 255
           in case U8_set (U8_new x25519_p_byte) (U8_fromBI x) of
                Inl e \<Rightarrow> (Inl e, s)
              | Inr Q \<Rightarrow> (Inr (KeyPair Q d_buffer), s))"

definition x25519_ecdh :: "key \<Rightarrow> key \<Rightarrow> U8" where
  "x25519_ecdh s_key_d p_key_Q =
     (let u = (case p_key_Q of BI q \<Rightarrow> q | Bytes b \<Rightarrow> U8_toBI (U8_from b));
          k = (case s_key_d of BI d \<Rightarrow> d | Bytes b \<Rightarrow> U8_toBI (U8_from b));
          x = ladder (x25519_clamp k) u (curve_p curve25519) x25519_a24 255
      in U8_fromBI x)"

subsection \<open>x448\<close>

definition x448_n_bit :: nat where
  "x448_n_bit = getBIBits (curve_n curve448)"

definition x448_n_byte :: nat where
  "x448_n_byte = drop_bit 3 (x448_n_bit + 7)"

definition x448_a24 :: int where
  "x448_a24 = 39081"

fun x448_gen :: "'s ec_gen \<Rightarrow> gen_call \<Rightarrow> 's \<Rightarrow> (error + gen_result) \<times> 's" where
  "x448_gen ec_gen key_pair s =
     (let (d_buffer, s) = ec_gen s;
          d = U8_toBI d_buffer;
          x = ladder (x448_clamp d) (curve_Gx curve448) (curve_p curve448) x448_a24 448
      in case U8_set (U8_new x448_n_byte) (U8_fromBI x) of
           Inl e \<Rightarrow> (Inl e, s)
         | Inr Q \<Rightarrow> (Inr (KeyPair Q d_buffer), s))"
| "x448_gen ec_gen private_key s =
     (let (d_buffer, s) = ec_gen s in (Inr (PrivateKey d_buffer), s))"
| "x448_gen ec_gen (public_key s_key) s =
     (let d_buffer = (case s_key of BI d \<Rightarrow> U8_fromBI d | Bytes b \<Rightarrow> U8_from b);
          d = U8_toBI d_buffer
      in if d = 0 then (Inl (KitError ''Invalid private key''), s)
         else
           let x = ladder (x448_clamp d) (curve_Gx curve448) (curve_p curve448) x448_a24 448
           in case U8_set (U8_new x448_n_byte) (U8_fromBI x) of
                Inl e \<Rightarrow> (Inl e, s)
              | Inr Q \<Rightarrow> (Inr (KeyPair Q d_buffer), s))"

definition x448_ecdh :: "key \<Rightarrow> key \<Rightarrow> U8" where
  "x448_ecdh s_key_d p_key_Q =
     (let u = (case p_key_Q of BI q \<Rightarrow> q | Bytes b \<Rightarrow> U8_toBI (U8_from b));
          k = (case s_key_d of BI d \<Rightarrow> d | Bytes b \<Rightarrow> U8_toBI (U8_from b));
          x = ladder (x448_clamp k) u (curve_p curve448) x448_a24 448
      in U8_fromBI x)"

section \<open>The ladder as the specification words it\<close>

text \<open>
  A second definition of the ladder, written from the specification's steps 1 to 5 and not
  from the source: the conditional swap by its contract (unchanged for selector 0,
  exchanged for selector 1), bit \<open>i\<close> of \<open>k\<close>, a run over the bit indices from
  \<open>bits - 1\<close> down to 0, each formula reduced modulo \<open>p\<close>, and the final
  \<open>x2 \<cdot> z2^(p-2) mod p\<close>.
\<close>

definition spec_cswap :: "int \<Rightarrow> int \<Rightarrow> int \<Rightarrow> int \<times> int" where
  "spec_cswap swap x2 x3 = (if swap = 0 then (x2, x3) else (x3, x2))"

definition spec_bit :: "int \<Rightarrow> nat \<Rightarrow> int" where
  "spec_bit k i = (if bit k i then 1 else 0)"

definition spec_iteration :: "int \<Rightarrow> int \<Rightarrow> int \<Rightarrow> int \<Rightarrow> ladder_vars \<Rightarrow> nat \<Rightarrow> ladder_vars" where
  "spec_iteration k u p a24 vars i =
     (case vars of (x2, z2, x3, z3, swap) \<Rightarrow>
        let k_t = spec_bit k i;
            swap = swap XOR k_t;
            (x2, x3) = spec_cswap swap x2 x3;
            (z2, z3) = spec_cswap swap z2 z3;
            swap = k_t;
            A = (x2 + z2) mod p;
            AA = A\<^sup>2 mod p;
            B = (x2 - z2) mod p;
            BB = B\<^sup>2 mod p;
            E = (AA - BB) mod p;
            C = (x3 + z3) mod p;
            D = (x3 - z3) mod p;
            DA = D * A mod p;
            CB = C * B mod p
        in ((AA * BB) mod p,
            (E * (AA + E * a24)) mod p,
            (DA + CB)\<^sup>2 mod p,
            (u * (DA - CB)\<^sup>2) mod p,
            swap))"

definition spec_ladder :: "int \<Rightarrow> int \<Rightarrow> int \<Rightarrow> int \<Rightarrow> int \<Rightarrow> int" where
  "spec_ladder k u p a24 bits =
     (case foldl (spec_iteration k u p a24) (1, 0, u, 1, 0) (rev [0..<nat bits]) of
        (x2, z2, x3, z3, swap) \<Rightarrow>
          let (x2, x3) = spec_cswap swap x2 x3;
              (z2, z3) = spec_cswap swap z2 z3
          in (x2 * z2 ^ nat (p - 2)) mod p)"


section \<open>Notions used in the statements\<close>

text \<open>
  The integer a key field stands for, as \<open>ecdh\<close> reads it:
  \<open>typeof x === 'bigint' ? x : U8.from(x).toBI()\<close>.
\<close>

fun key_int :: "key \<Rightarrow> int" where
  "key_int (BI d) = d"
| "key_int (Bytes b) = U8_toBI b"

text \<open>
  The calls of \<open>gen\<close> within the data model of the specification, where a private key
  is an unsigned integer: a key given as a bigint is not negative.
\<close>

fun call_ok :: "gen_call \<Rightarrow> bool" where
  "call_ok (public_key (BI d)) = (0 \<le> d)"
| "call_ok _ = True"

text \<open>
  The public key \<open>gen\<close> builds for the decoded private key \<open>d\<close>: the encoded ladder
  result at the start of a zero-filled array of the curve's width.
\<close>

definition x25519_Q :: "int \<Rightarrow> U8" where
  "x25519_Q d =
     (let x = U8_fromBI (ladder (x25519_clamp d) (curve_Gx curve25519) (curve_p curve25519)
                x25519_a24 255)
      in x @ replicate (32 - length x) 0)"

definition x448_Q :: "int \<Rightarrow> U8" where
  "x448_Q d =
     (let x = U8_fromBI (ladder (x448_clamp d) (curve_Gx curve448) (curve_p curve448)
                x448_a24 448)
      in x @ replicate (56 - length x) 0)"

text \<open>A random source that always draws the same bytes, for concrete instances.\<close>

definition const_gen :: "U8 \<Rightarrow> 's ec_gen" where
  "const_gen b s = (b, s)"

text \<open>The selector of the ladder is a single bit.\<close>

definition swap_ok :: "ladder_vars \<Rightarrow> bool" where
  "swap_ok vars = (case vars of (x_2, z_2, x_3, z_3, swap) \<Rightarrow> swap = 0 \<or> swap = 1)"

text \<open>
  What the ladder variables satisfy throughout a run on the u-coordinate 0: \<open>z_2\<close> and
  \<open>x_3\<close> are 0, and \<open>z_3\<close> is 0 whenever a swap is pending.
\<close>

definition u0_inv :: "ladder_vars \<Rightarrow> bool" where
  "u0_inv vars =
     (case vars of (x_2, z_2, x_3, z_3, swap) \<Rightarrow>
        z_2 = 0 \<and> x_3 = 0 \<and> (swap = 0 \<or> (swap = 1 \<and> z_3 = 0)))"

section \<open>The conditional swap\<close>

lemma cSwap_0: "cSwap 0 a b = (a, b)"
  by (simp add: cSwap_def)

lemma cSwap_1: "cSwap 1 a b = (b, a)"
  by (simp add: cSwap_def Let_def xor.commute xor.left_commute flip: xor.assoc)

text \<open>
  Claim C5.  For every pair of values, \<open>cSwap\<close> returns the pair unchanged when the selector
  is 0 and exchanged when the selector is 1.  It does so without a branch: the result is
  each value xor-ed with \<open>dummy = mask AND (x_2 XOR x_3)\<close>, where \<open>mask = - swap\<close> is 0 for
  selector 0 and has every bit set for selector 1.
\<close>

theorem cSwap_contract:
  "cSwap 0 x_2 x_3 = (x_2, x_3) \<and> cSwap 1 x_2 x_3 = (x_3, x_2) \<and>
   cSwap swap x_2 x_3 =
     (x_2 XOR ((- swap) AND (x_2 XOR x_3)), x_3 XOR ((- swap) AND (x_2 XOR x_3))) \<and>
   - (0::int) = 0 \<and> (\<forall>i. bit (- (1::int)) i)"
  by (simp add: cSwap_0 cSwap_1) (simp add: cSwap_def Let_def)

section \<open>Clamping\<close>

lemma mask25519: "(0x7FFFFFFFFFFFFFFFFFFFFFFFFFFFFFFFFFFFFFFFFFFFFFFFFFFFFFFFFFFFFFF8 :: int) = 2 ^ 255 - 8"
  by simp

lemma top25519: "(0x4000000000000000000000000000000000000000000000000000000000000000 :: int) = 2 ^ 254"
  by simp

lemma mask448: "(0xFFFFFFFFFFFFFFFFFFFFFFFFFFFFFFFFFFFFFFFFFFFFFFFFFFFFFFFFFFFFFFFFFFFFFFFFFFFFFFFFFFFFFFFFFFFFFFFFFFFFFFFFFFFFFFFC :: int) = 2 ^ 448 - 4"
  by simp

lemma top448: "(0x8000000000000000000000000000000000000000000000000000000000000000000000000000000000000000000000000000000000000000 :: int) = 2 ^ 447"
  by simp

lemma pow_minus_push_mask: "m \<le> n \<Longrightarrow> (2::int) ^ n - 2 ^ m = push_bit m (mask (n - m))"
  by (simp add: push_bit_eq_mult mask_eq_exp_minus_1 algebra_simps flip: power_add)

lemma bit_pow_minus_pow: "m \<le> n \<Longrightarrow> bit ((2::int) ^ n - 2 ^ m) i \<longleftrightarrow> m \<le> i \<and> i < n"
  by (auto simp add: pow_minus_push_mask bit_push_bit_iff bit_mask_iff)

lemma bit_mask25519:
  "bit (0x7FFFFFFFFFFFFFFFFFFFFFFFFFFFFFFFFFFFFFFFFFFFFFFFFFFFFFFFFFFFFFF8 :: int) i \<longleftrightarrow> 3 \<le> i \<and> i < 255"
proof -
  have "(0x7FFFFFFFFFFFFFFFFFFFFFFFFFFFFFFFFFFFFFFFFFFFFFFFFFFFFFFFFFFFFFF8 :: int) = 2 ^ 255 - 2 ^ 3"
    by simp
  then show ?thesis by (simp only: bit_pow_minus_pow)
qed

lemma bit_top25519:
  "bit (0x4000000000000000000000000000000000000000000000000000000000000000 :: int) i \<longleftrightarrow> i = 254"
  by (simp only: top25519 bit_exp_iff) auto

lemma bit_mask448:
  "bit (0xFFFFFFFFFFFFFFFFFFFFFFFFFFFFFFFFFFFFFFFFFFFFFFFFFFFFFFFFFFFFFFFFFFFFFFFFFFFFFFFFFFFFFFFFFFFFFFFFFFFFFFFFFFFFFFFC :: int) i \<longleftrightarrow> 2 \<le> i \<and> i < 448"
proof -
  have "(0xFFFFFFFFFFFFFFFFFFFFFFFFFFFFFFFFFFFFFFFFFFFFFFFFFFFFFFFFFFFFFFFFFFFFFFFFFFFFFFFFFFFFFFFFFFFFFFFFFFFFFFFFFFFFFFFC :: int) = 2 ^ 448 - 2 ^ 2"
    by simp
  then show ?thesis by (simp only: bit_pow_minus_pow)
qed

lemma bit_top448:
  "bit (0x8000000000000000000000000000000000000000000000000000000000000000000000000000000000000000000000000000000000000000 :: int) i \<longleftrightarrow> i = 447"
  by (simp only: top448 bit_exp_iff) auto

lemma bit_x25519_clamp:
  "bit (x25519_clamp d) i \<longleftrightarrow> i = 254 \<or> (3 \<le> i \<and> i < 254 \<and> bit d i)"
  unfolding x25519_clamp_def Let_def bit_or_iff bit_and_iff bit_top25519 bit_mask25519
  by auto

lemma bit_x448_clamp:
  "bit (x448_clamp d) i \<longleftrightarrow> i = 447 \<or> (2 \<le> i \<and> i < 447 \<and> bit d i)"
  unfolding x448_clamp_def Let_def bit_or_iff bit_and_iff bit_top448 bit_mask448
  by auto

text \<open>
  Claim C3.  On Curve A \<open>clamp\<close> maps every integer \<open>d\<close> to \<open>(d AND (2^255 - 8)) OR 2^254\<close>:
  bit 254 is set, bits 3 to 253 are those of \<open>d\<close>, every other bit (the bottom three, and
  bit 255 and above) is clear.  On Curve B it maps \<open>d\<close> to \<open>(d AND (2^448 - 4)) OR 2^447\<close>:
  bit 447 is set, bits 2 to 446 are those of \<open>d\<close>, every other bit is clear.  Both are
  total functions on the integers.
\<close>

theorem clamp_formula:
  "x25519_clamp d = (d AND (2 ^ 255 - 8)) OR 2 ^ 254 \<and>
   x448_clamp d = (d AND (2 ^ 448 - 4)) OR 2 ^ 447 \<and>
   (bit (x25519_clamp d) i \<longleftrightarrow> i = 254 \<or> (3 \<le> i \<and> i < 254 \<and> bit d i)) \<and>
   (bit (x448_clamp d) i \<longleftrightarrow> i = 447 \<or> (2 \<le> i \<and> i < 447 \<and> bit d i))"
proof -
  have "x25519_clamp d = (d AND (2 ^ 255 - 8)) OR 2 ^ 254"
    unfolding x25519_clamp_def Let_def by (simp only: mask25519 top25519)
  moreover have "x448_clamp d = (d AND (2 ^ 448 - 4)) OR 2 ^ 447"
    unfolding x448_clamp_def Let_def by (simp only: mask448 top448)
  ultimately show ?thesis
    using bit_x25519_clamp [of d i] bit_x448_clamp [of d i] by (intro conjI)
qed

lemma x25519_clamp_idem: "x25519_clamp (x25519_clamp d) = x25519_clamp d"
  by (rule bit_eqI) (auto simp add: bit_x25519_clamp)

lemma x448_clamp_idem: "x448_clamp (x448_clamp d) = x448_clamp d"
  by (rule bit_eqI) (auto simp add: bit_x448_clamp)

lemma x25519_clamp_ge: "2 ^ 254 \<le> x25519_clamp d"
proof -
  have "0 \<le> d AND 0x7FFFFFFFFFFFFFFFFFFFFFFFFFFFFFFFFFFFFFFFFFFFFFFFFFFFFFFFFFFFFFF8"
    by simp
  then have "(0x4000000000000000000000000000000000000000000000000000000000000000 :: int) \<le> x25519_clamp d"
    unfolding x25519_clamp_def Let_def
    by (subst or.commute) (rule or_greater_eq)
  then show ?thesis by (simp only: top25519)
qed

lemma x448_clamp_ge: "2 ^ 447 \<le> x448_clamp d"
proof -
  have "0 \<le> d AND 0xFFFFFFFFFFFFFFFFFFFFFFFFFFFFFFFFFFFFFFFFFFFFFFFFFFFFFFFFFFFFFFFFFFFFFFFFFFFFFFFFFFFFFFFFFFFFFFFFFFFFFFFFFFFFFFFC"
    by simp
  then have "(0x8000000000000000000000000000000000000000000000000000000000000000000000000000000000000000000000000000000000000000 :: int) \<le> x448_clamp d"
    unfolding x448_clamp_def Let_def
    by (subst or.commute) (rule or_greater_eq)
  then show ?thesis by (simp only: top448)
qed

section \<open>The ladder of the source computes the ladder of the specification\<close>

lemma cSwap_spec_cswap: "swap = 0 \<or> swap = 1 \<Longrightarrow> cSwap swap a b = spec_cswap swap a b"
  by (auto simp add: cSwap_0 cSwap_1 spec_cswap_def)

lemma k_t_spec_bit: "drop_bit i k AND 1 = spec_bit k i"
  by (simp add: spec_bit_def and_one_eq bit_iff_odd_drop_bit mod_2_eq_odd)

lemma xor_bits01:
  "a = 0 \<or> a = 1 \<Longrightarrow> b = 0 \<or> b = 1 \<Longrightarrow> a XOR b = 0 \<or> a XOR b = 1" for a b :: int
  by auto

lemma spec_bit_01: "spec_bit k i = 0 \<or> spec_bit k i = 1"
  by (simp add: spec_bit_def)

lemma ladder_body_spec:
  assumes "swap_ok vars"
  shows "ladder_body k u p a24 (int i) vars = spec_iteration k u p a24 vars i"
proof -
  obtain x_2 z_2 x_3 z_3 swap where v: "vars = (x_2, z_2, x_3, z_3, swap)"
    by (cases vars) auto
  with assms have s: "swap = 0 \<or> swap = 1" by (simp add: swap_ok_def)
  have s': "swap XOR spec_bit k i = 0 \<or> swap XOR spec_bit k i = 1"
    using s spec_bit_01 [of k i] by (rule xor_bits01)
  show ?thesis
    unfolding v ladder_body_def spec_iteration_def
    by (simp add: k_t_spec_bit cSwap_spec_cswap [OF s'] Let_def Fp_plus_def Fp_subtract_def
        Fp_multiply_def Fp_pow_def mod_simps split: prod.splits)
qed

lemma swap_ok_spec_iteration: "swap_ok (spec_iteration k u p a24 vars i)"
  by (cases vars)
    (simp only: spec_iteration_def swap_ok_def Let_def split_beta prod.case fst_conv snd_conv
      spec_bit_01)

lemma ladder_loop_spec:
  "swap_ok vars \<Longrightarrow>
   ladder_loop k u p a24 (int n - 1) vars = foldl (spec_iteration k u p a24) vars (rev [0..<n])"
proof (induction n arbitrary: vars)
  case 0
  show ?case by (subst ladder_loop.simps) simp
next
  case (Suc n)
  have "ladder_loop k u p a24 (int (Suc n) - 1) vars =
        ladder_loop k u p a24 (int n - 1) (ladder_body k u p a24 (int n) vars)"
    by (subst ladder_loop.simps) simp
  also have "\<dots> = ladder_loop k u p a24 (int n - 1) (spec_iteration k u p a24 vars n)"
    by (simp add: ladder_body_spec [OF Suc.prems])
  also have "\<dots> = foldl (spec_iteration k u p a24) (spec_iteration k u p a24 vars n) (rev [0..<n])"
    by (rule Suc.IH) (rule swap_ok_spec_iteration)
  finally show ?case by simp
qed

lemma swap_ok_foldl:
  "swap_ok vars \<Longrightarrow> swap_ok (foldl (spec_iteration k u p a24) vars js)"
  by (induction js arbitrary: vars) (simp_all add: swap_ok_spec_iteration)

lemma ladder_loop_bits:
  "ladder_loop k u p a24 (bits - 1) (1, 0, u, 1, 0) =
   foldl (spec_iteration k u p a24) (1, 0, u, 1, 0) (rev [0..<nat bits])"
proof (cases "1 \<le> bits")
  case True
  then have "bits - 1 = int (nat bits) - 1" by simp
  then show ?thesis
    using ladder_loop_spec [of "(1, 0, u, 1, 0)" k u p a24 "nat bits"]
    by (simp add: swap_ok_def)
next
  case False
  then show ?thesis by (subst ladder_loop.simps) simp
qed

text \<open>
  Claim C1.  For every scalar \<open>k\<close>, u-coordinate \<open>u\<close>, modulus \<open>p\<close>, constant \<open>a24\<close> and
  bit length \<open>bits\<close> (so in particular for every non-negative \<open>k\<close> and prime \<open>p\<close>), the
  \<open>ladder\<close> function of the source returns what the algorithm of the specification
  returns: from \<open>(x2, z2) = (1, 0)\<close>, \<open>(x3, z3) = (u, 1)\<close>, \<open>swap = 0\<close>, for the bit indices
  from \<open>bits - 1\<close> down to 0 the swap update and the differential addition and doubling,
  all modulo \<open>p\<close>, then one last conditional swap and \<open>x2 \<cdot> z2^(p-2) mod p\<close>.
\<close>

theorem ladder_refines_spec:
  "ladder k u p a24 bits = spec_ladder k u p a24 bits"
proof -
  let ?v = "foldl (spec_iteration k u p a24) (1, 0, u, 1, 0) (rev [0..<nat bits])"
  have ok: "swap_ok ?v" by (rule swap_ok_foldl) (simp add: swap_ok_def)
  obtain x_2 z_2 x_3 z_3 swap where v: "?v = (x_2, z_2, x_3, z_3, swap)"
    by (cases ?v) auto
  with ok have s: "swap = 0 \<or> swap = 1" by (simp add: swap_ok_def)
  show ?thesis
    unfolding ladder_def spec_ladder_def ladder_loop_bits v
    by (simp add: cSwap_spec_cswap [OF s] Fp_multiply_def Fp_pow_def mod_simps split: prod.splits)
qed

section \<open>Facts about the codec, the byte widths and the range of the ladder\<close>

lemma U8_toBI_nonneg: "0 \<le> U8_toBI bs"
  by (induction bs) simp_all

lemma U8_toBI_append_zeros: "U8_toBI (bs @ replicate m 0) = U8_toBI bs"
proof -
  have "U8_toBI (replicate m 0) = 0" by (induction m) simp_all
  then show ?thesis by (induction bs) simp_all
qed

lemma U8_toBI_eq_0_iff: "U8_toBI bs = 0 \<longleftrightarrow> (\<forall>b \<in> set bs. b = 0)"
proof (induction bs)
  case Nil
  show ?case by simp
next
  case (Cons b bs)
  have "0 \<le> uint b" by simp
  then have "uint b + 256 * U8_toBI bs = 0 \<longleftrightarrow> uint b = 0 \<and> U8_toBI bs = 0"
    using U8_toBI_nonneg [of bs] by arith
  with Cons show ?case by (simp add: uint_0_iff)
qed

lemma U8_toBI_fromBI: "0 \<le> x \<Longrightarrow> U8_toBI (U8_fromBI x) = x"
proof (induction x rule: U8_fromBI.induct)
  case (1 x)
  show ?case
  proof (cases "x \<le> 0")
    case True
    with "1.prems" show ?thesis by (simp add: U8_fromBI.simps)
  next
    case False
    then have "U8_toBI (U8_fromBI (x div 256)) = x div 256"
      using "1.IH" by simp
    with False show ?thesis
      by (subst U8_fromBI.simps) (simp add: uint_word_of_int take_bit_eq_mod)
  qed
qed

lemma U8_fromBI_0: "x \<le> 0 \<Longrightarrow> U8_fromBI x = []"
  by (simp add: U8_fromBI.simps)

lemma length_U8_fromBI: "x < 256 ^ m \<Longrightarrow> length (U8_fromBI x) \<le> m"
proof (induction m arbitrary: x)
  case 0
  then show ?case by (simp add: U8_fromBI.simps)
next
  case (Suc m)
  show ?case
  proof (cases "x \<le> 0")
    case True
    then show ?thesis by (simp add: U8_fromBI.simps)
  next
    case False
    from Suc.prems have "x div 256 < 256 ^ m" by simp
    then have "length (U8_fromBI (x div 256)) \<le> m" by (rule Suc.IH)
    with False show ?thesis by (subst U8_fromBI.simps) simp
  qed
qed

lemma U8_set_new:
  "length src \<le> m \<Longrightarrow> U8_set (U8_new m) src = Inr (src @ replicate (m - length src) 0)"
  by (simp add: U8_set_def U8_new_def)

lemma getBIBits_bounds: "2 ^ m \<le> x \<Longrightarrow> x < 2 ^ Suc m \<Longrightarrow> getBIBits x = Suc m"
proof (induction m arbitrary: x)
  case 0
  then have "x = 1" by simp
  then show ?case by (simp add: getBIBits.simps)
next
  case (Suc m)
  from Suc.prems have "2 ^ m \<le> x div 2" "x div 2 < 2 ^ Suc m" by simp_all
  then have "getBIBits (x div 2) = Suc m" by (rule Suc.IH)
  moreover from Suc.prems have "0 < x"
    by (smt (verit) zero_less_power)
  ultimately show ?case by (subst getBIBits.simps) simp
qed

lemma x25519_p_byte_eq: "x25519_p_byte = 32"
proof -
  have "getBIBits (curve_p curve25519) = Suc 254"
    by (rule getBIBits_bounds) (simp_all add: curve25519_def)
  then show ?thesis by (simp add: x25519_p_byte_def x25519_p_bit_def drop_bit_eq_div)
qed

lemma x448_n_byte_eq: "x448_n_byte = 56"
proof -
  have "getBIBits (curve_n curve448) = Suc 445"
    by (rule getBIBits_bounds) (simp_all add: curve448_def)
  then show ?thesis by (simp add: x448_n_byte_def x448_n_bit_def drop_bit_eq_div)
qed

lemma ladder_range: "0 < p \<Longrightarrow> 0 \<le> ladder k u p a24 bits \<and> ladder k u p a24 bits < p"
  by (simp add: ladder_def Fp_multiply_def split: prod.splits)

lemma curve25519_p_bounds:
  "0 < curve_p curve25519" "curve_p curve25519 < 256 ^ 32" "2 < curve_p curve25519"
  by (simp_all add: curve25519_def)

lemma curve448_p_bounds:
  "0 < curve_p curve448" "curve_p curve448 < 256 ^ 56" "2 < curve_p curve448"
  by (simp_all add: curve448_def)

section \<open>What the public operations return\<close>

lemma x25519_set_Q:
  "U8_set (U8_new x25519_p_byte)
     (U8_fromBI (ladder k u (curve_p curve25519) a24 bits)) =
   Inr (U8_fromBI (ladder k u (curve_p curve25519) a24 bits) @
        replicate (32 - length (U8_fromBI (ladder k u (curve_p curve25519) a24 bits))) 0)"
proof -
  have "ladder k u (curve_p curve25519) a24 bits < 256 ^ 32"
    using ladder_range [OF curve25519_p_bounds(1), of k u a24 bits] curve25519_p_bounds(2)
    by linarith
  then have "length (U8_fromBI (ladder k u (curve_p curve25519) a24 bits)) \<le> 32"
    by (rule length_U8_fromBI)
  then show ?thesis by (simp only: x25519_p_byte_eq U8_set_new)
qed

lemma x448_set_Q:
  "U8_set (U8_new x448_n_byte)
     (U8_fromBI (ladder k u (curve_p curve448) a24 bits)) =
   Inr (U8_fromBI (ladder k u (curve_p curve448) a24 bits) @
        replicate (56 - length (U8_fromBI (ladder k u (curve_p curve448) a24 bits))) 0)"
proof -
  have "ladder k u (curve_p curve448) a24 bits < 256 ^ 56"
    using ladder_range [OF curve448_p_bounds(1), of k u a24 bits] curve448_p_bounds(2)
    by linarith
  then have "length (U8_fromBI (ladder k u (curve_p curve448) a24 bits)) \<le> 56"
    by (rule length_U8_fromBI)
  then show ?thesis by (simp only: x448_n_byte_eq U8_set_new)
qed

lemma x25519_gen_key_pair:
  "x25519_gen ec_gen key_pair s =
     (Inr (KeyPair (x25519_Q (U8_toBI (fst (ec_gen s)))) (fst (ec_gen s))), snd (ec_gen s))"
  by (simp add: x25519_set_Q x25519_Q_def Let_def split: prod.splits)

lemma x25519_gen_private_key:
  "x25519_gen ec_gen private_key s = (Inr (PrivateKey (fst (ec_gen s))), snd (ec_gen s))"
  by (simp split: prod.splits)

lemma x25519_gen_public_key_bytes:
  "x25519_gen ec_gen (public_key (Bytes b)) s =
     (if U8_toBI b = 0 then (Inl (KitError ''Invalid private key''), s)
      else (Inr (KeyPair (x25519_Q (U8_toBI b)) b), s))"
  by (simp add: x25519_set_Q x25519_Q_def Let_def U8_from_def)

lemma x25519_gen_public_key_BI:
  "0 \<le> d \<Longrightarrow> x25519_gen ec_gen (public_key (BI d)) s =
     (if d = 0 then (Inl (KitError ''Invalid private key''), s)
      else (Inr (KeyPair (x25519_Q d) (U8_fromBI d)), s))"
  by (simp add: x25519_set_Q x25519_Q_def Let_def U8_toBI_fromBI)

lemma x448_gen_key_pair:
  "x448_gen ec_gen key_pair s =
     (Inr (KeyPair (x448_Q (U8_toBI (fst (ec_gen s)))) (fst (ec_gen s))), snd (ec_gen s))"
  by (simp add: x448_set_Q x448_Q_def Let_def split: prod.splits)

lemma x448_gen_private_key:
  "x448_gen ec_gen private_key s = (Inr (PrivateKey (fst (ec_gen s))), snd (ec_gen s))"
  by (simp split: prod.splits)

lemma x448_gen_public_key_bytes:
  "x448_gen ec_gen (public_key (Bytes b)) s =
     (if U8_toBI b = 0 then (Inl (KitError ''Invalid private key''), s)
      else (Inr (KeyPair (x448_Q (U8_toBI b)) b), s))"
  by (simp add: x448_set_Q x448_Q_def Let_def U8_from_def)

lemma x448_gen_public_key_BI:
  "0 \<le> d \<Longrightarrow> x448_gen ec_gen (public_key (BI d)) s =
     (if d = 0 then (Inl (KitError ''Invalid private key''), s)
      else (Inr (KeyPair (x448_Q d) (U8_fromBI d)), s))"
  by (simp add: x448_set_Q x448_Q_def Let_def U8_toBI_fromBI)

lemma x25519_ecdh_eq:
  "x25519_ecdh s_key p_key =
     U8_fromBI (ladder (x25519_clamp (key_int s_key)) (key_int p_key) (curve_p curve25519) x25519_a24 255)"
  by (cases s_key; cases p_key) (simp_all add: x25519_ecdh_def U8_from_def)

lemma x448_ecdh_eq:
  "x448_ecdh s_key p_key =
     U8_fromBI (ladder (x448_clamp (key_int s_key)) (key_int p_key) (curve_p curve448) x448_a24 448)"
  by (cases s_key; cases p_key) (simp_all add: x448_ecdh_def U8_from_def)

lemma x25519_Q_props:
  "length (x25519_Q d) = 32"
  "U8_toBI (x25519_Q d) = ladder (x25519_clamp d) (curve_Gx curve25519) (curve_p curve25519) x25519_a24 255"
proof -
  let ?x = "ladder (x25519_clamp d) (curve_Gx curve25519) (curve_p curve25519) x25519_a24 255"
  have r: "0 \<le> ?x" "?x < 256 ^ 32"
    using ladder_range [OF curve25519_p_bounds(1), of "x25519_clamp d" "curve_Gx curve25519" x25519_a24 255]
      curve25519_p_bounds(2) by linarith+
  from r(2) have "length (U8_fromBI ?x) \<le> 32" by (rule length_U8_fromBI)
  then show "length (x25519_Q d) = 32" by (simp add: x25519_Q_def Let_def)
  show "U8_toBI (x25519_Q d) = ?x"
    by (simp add: x25519_Q_def Let_def U8_toBI_append_zeros U8_toBI_fromBI [OF r(1)])
qed

lemma x448_Q_props:
  "length (x448_Q d) = 56"
  "U8_toBI (x448_Q d) = ladder (x448_clamp d) (curve_Gx curve448) (curve_p curve448) x448_a24 448"
proof -
  let ?x = "ladder (x448_clamp d) (curve_Gx curve448) (curve_p curve448) x448_a24 448"
  have r: "0 \<le> ?x" "?x < 256 ^ 56"
    using ladder_range [OF curve448_p_bounds(1), of "x448_clamp d" "curve_Gx curve448" x448_a24 448]
      curve448_p_bounds(2) by linarith+
  from r(2) have "length (U8_fromBI ?x) \<le> 56" by (rule length_U8_fromBI)
  then show "length (x448_Q d) = 56" by (simp add: x448_Q_def Let_def)
  show "U8_toBI (x448_Q d) = ?x"
    by (simp add: x448_Q_def Let_def U8_toBI_append_zeros U8_toBI_fromBI [OF r(1)])
qed

section \<open>The ladder on the u-coordinate 0\<close>

lemma k_t_cases: "drop_bit i k AND 1 = 0 \<or> drop_bit i k AND 1 = 1" for k :: int
  unfolding k_t_spec_bit by (rule spec_bit_01)

lemma neg_plus_mod_sq: "(- a mod p + a mod p)\<^sup>2 mod p = 0" for a p :: int
proof -
  have "(- a mod p + a mod p) mod p = 0" by (simp add: mod_simps)
  then have "((- a mod p + a mod p) mod p)\<^sup>2 mod p = 0" by simp
  then show ?thesis by (simp only: power_mod)
qed

lemma plus_neg_mod_sq: "(a mod p + - a mod p)\<^sup>2 mod p = 0" for a p :: int
  using neg_plus_mod_sq [of a p] by (simp add: add.commute)

lemma ladder_body_u0:
  assumes "u0_inv vars"
  shows "u0_inv (ladder_body k 0 p a24 i vars)"
proof -
  obtain x_2 z_2 x_3 z_3 swap where v: "vars = (x_2, z_2, x_3, z_3, swap)"
    by (cases vars) auto
  from assms have inv: "z_2 = 0" "x_3 = 0" "swap = 0 \<or> (swap = 1 \<and> z_3 = 0)"
    by (simp_all add: u0_inv_def v)
  let ?k_t = "drop_bit (nat i) k AND 1"
  have kt: "?k_t = 0 \<or> ?k_t = 1" by (rule k_t_cases)
  have sw: "swap XOR ?k_t = 0 \<or> swap XOR ?k_t = 1"
    using inv(3) kt by auto
  from sw show ?thesis
  proof
    assume s0: "swap XOR ?k_t = 0"
    show ?thesis
      unfolding v ladder_body_def u0_inv_def
      using kt by (simp add: Let_def s0 cSwap_0 inv Fp_plus_def Fp_subtract_def Fp_multiply_def
          Fp_pow_def mod_simps neg_plus_mod_sq plus_neg_mod_sq)
  next
    assume s1: "swap XOR ?k_t = 1"
    show ?thesis
      unfolding v ladder_body_def u0_inv_def
      using kt by (simp add: Let_def s1 cSwap_1 inv Fp_plus_def Fp_subtract_def Fp_multiply_def
          Fp_pow_def mod_simps neg_plus_mod_sq plus_neg_mod_sq)
  qed
qed

lemma ladder_loop_u0: "u0_inv vars \<Longrightarrow> u0_inv (ladder_loop k 0 p a24 i vars)"
proof (induction k "0::int" p a24 i vars rule: ladder_loop.induct)
  case (1 k p a24 i vars)
  show ?case
  proof (cases "0 \<le> i")
    case True
    have "u0_inv (ladder_loop k 0 p a24 (i - 1) (ladder_body k 0 p a24 i vars))"
      using True "1.prems" by (intro "1.hyps" ladder_body_u0)
    with True show ?thesis by (subst ladder_loop.simps) simp
  next
    case False
    with "1.prems" show ?thesis by (subst ladder_loop.simps) simp
  qed
qed

lemma ladder_u0: 
  assumes "2 < p"
  shows "ladder k 0 p a24 bits = 0"
proof -
  let ?v = "ladder_loop k 0 p a24 (bits - 1) (1, 0, 0, 1, 0)"
  have "u0_inv ?v" by (rule ladder_loop_u0) (simp add: u0_inv_def)
  moreover obtain x_2 z_2 x_3 z_3 swap where v: "?v = (x_2, z_2, x_3, z_3, swap)"
    by (cases ?v) auto
  ultimately have inv: "z_2 = 0" "swap = 0 \<or> (swap = 1 \<and> z_3 = 0)"
    by (simp_all add: u0_inv_def)
  have pw: "(0::int) ^ nat (p - 2) = 0" using assms by simp
  from inv(2) show ?thesis
    unfolding ladder_def v
    by (auto simp add: cSwap_0 cSwap_1 inv(1) Fp_multiply_def Fp_pow_def pw)
qed

section \<open>Clamping is idempotent and never yields 0\<close>

lemma x25519_clamp_0: "x25519_clamp 0 = 2 ^ 254"
  unfolding x25519_clamp_def Let_def by (simp only: top25519) simp

lemma x448_clamp_0: "x448_clamp 0 = 2 ^ 447"
  unfolding x448_clamp_def Let_def by (simp only: top448) simp

text \<open>
  Claim C10.  On each curve \<open>clamp\<close> is idempotent, and its result is at least
  \<open>2^254\<close> (Curve A) or \<open>2^447\<close> (Curve B), so never 0, for every integer \<open>d\<close>.  Key
  agreement passes the clamped private scalar to the ladder; for a private key that
  decodes to 0 that scalar is \<open>2^254\<close> or \<open>2^447\<close>.
\<close>

theorem clamp_idempotent_nonzero:
  "x25519_clamp (x25519_clamp d) = x25519_clamp d \<and> 2 ^ 254 \<le> x25519_clamp d \<and>
   x25519_clamp d \<noteq> 0 \<and>
   x448_clamp (x448_clamp d) = x448_clamp d \<and> 2 ^ 447 \<le> x448_clamp d \<and>
   x448_clamp d \<noteq> 0 \<and>
   x25519_ecdh s_key p_key =
     U8_fromBI (ladder (x25519_clamp (key_int s_key)) (key_int p_key)
       (curve_p curve25519) x25519_a24 255) \<and>
   x448_ecdh s_key p_key =
     U8_fromBI (ladder (x448_clamp (key_int s_key)) (key_int p_key)
       (curve_p curve448) x448_a24 448) \<and>
   x25519_ecdh (BI 0) p_key =
     U8_fromBI (ladder (2 ^ 254) (key_int p_key) (curve_p curve25519) x25519_a24 255) \<and>
   x448_ecdh (BI 0) p_key =
     U8_fromBI (ladder (2 ^ 447) (key_int p_key) (curve_p curve448) x448_a24 448)"
proof -
  have "x25519_clamp d \<noteq> 0" using x25519_clamp_ge [of d] by auto
  moreover have "x448_clamp d \<noteq> 0" using x448_clamp_ge [of d] by auto
  moreover have "x25519_ecdh (BI 0) p_key =
     U8_fromBI (ladder (2 ^ 254) (key_int p_key) (curve_p curve25519) x25519_a24 255)"
    by (simp only: x25519_ecdh_eq key_int.simps x25519_clamp_0)
  moreover have "x448_ecdh (BI 0) p_key =
     U8_fromBI (ladder (2 ^ 447) (key_int p_key) (curve_p curve448) x448_a24 448)"
    by (simp only: x448_ecdh_eq key_int.simps x448_clamp_0)
  ultimately show ?thesis
    using x25519_clamp_idem [of d] x25519_clamp_ge [of d] x448_clamp_idem [of d]
      x448_clamp_ge [of d] x25519_ecdh_eq [of s_key p_key] x448_ecdh_eq [of s_key p_key]
    by (intro conjI)
qed


section \<open>The only error\<close>

lemma x25519_gen_error_iff:
  assumes "call_ok call"
  shows "fst (x25519_gen ec_gen call s) = Inl e \<longleftrightarrow>
         e = KitError ''Invalid private key'' \<and> (\<exists>sk. call = public_key sk \<and> key_int sk = 0)"
proof (cases call)
  case key_pair
  then show ?thesis by (simp only: x25519_gen_key_pair) simp
next
  case private_key
  then show ?thesis by (simp only: x25519_gen_private_key) simp
next
  case (public_key sk)
  show ?thesis
  proof (cases sk)
    case (BI d)
    with assms public_key have "0 \<le> d" by simp
    then show ?thesis unfolding public_key BI
      by (simp only: x25519_gen_public_key_BI) auto
  next
    case (Bytes b)
    show ?thesis unfolding public_key Bytes
      by (simp only: x25519_gen_public_key_bytes) auto
  qed
qed

lemma x448_gen_error_iff:
  assumes "call_ok call"
  shows "fst (x448_gen ec_gen call s) = Inl e \<longleftrightarrow>
         e = KitError ''Invalid private key'' \<and> (\<exists>sk. call = public_key sk \<and> key_int sk = 0)"
proof (cases call)
  case key_pair
  then show ?thesis by (simp only: x448_gen_key_pair) simp
next
  case private_key
  then show ?thesis by (simp only: x448_gen_private_key) simp
next
  case (public_key sk)
  show ?thesis
  proof (cases sk)
    case (BI d)
    with assms public_key have "0 \<le> d" by simp
    then show ?thesis unfolding public_key BI
      by (simp only: x448_gen_public_key_BI) auto
  next
    case (Bytes b)
    show ?thesis unfolding public_key Bytes
      by (simp only: x448_gen_public_key_bytes) auto
  qed
qed

text \<open>
  Claim C4.  On both curves \<open>gen\<close> fails exactly when it is called to derive a public key
  from a private key that decodes to 0, and the failure is the error
  \<open>Invalid private key\<close>; generating a key pair or a private key never fails.  Key
  agreement has no failure: for any private key and any peer value, whatever they decode
  to, it returns the encoded ladder result for the clamped scalar and the peer value as
  given.
\<close>

theorem invalid_key_iff_zero_derive:
  assumes "call_ok call"
  shows
    "(fst (x25519_gen ec_gen call s) = Inl e \<longleftrightarrow>
        e = KitError ''Invalid private key'' \<and> (\<exists>sk. call = public_key sk \<and> key_int sk = 0)) \<and>
     (fst (x448_gen ec_gen call s) = Inl e \<longleftrightarrow>
        e = KitError ''Invalid private key'' \<and> (\<exists>sk. call = public_key sk \<and> key_int sk = 0)) \<and>
     x25519_ecdh s_key p_key =
       U8_fromBI (ladder (x25519_clamp (key_int s_key)) (key_int p_key)
         (curve_p curve25519) x25519_a24 255) \<and>
     x448_ecdh s_key p_key =
       U8_fromBI (ladder (x448_clamp (key_int s_key)) (key_int p_key)
         (curve_p curve448) x448_a24 448)"
  using x25519_gen_error_iff [OF assms, of ec_gen s e] x448_gen_error_iff [OF assms, of ec_gen s e]
    x25519_ecdh_eq [of s_key p_key] x448_ecdh_eq [of s_key p_key]
  by (intro conjI)

text \<open>
  Instances: deriving from 32 zero bytes fails on both curves; generating a key pair and
  deriving from the private key 1 do not.
\<close>

theorem invalid_key_iff_zero_derive_witness:
  "call_ok (public_key (Bytes (replicate 32 0))) \<and>
   fst (x25519_gen (\<lambda>s::unit. ([1], s)) (public_key (Bytes (replicate 32 0))) ()) =
     Inl (KitError ''Invalid private key'') \<and>
   fst (x448_gen (\<lambda>s::unit. ([1], s)) (public_key (Bytes (replicate 32 0))) ()) =
     Inl (KitError ''Invalid private key'') \<and>
   call_ok key_pair \<and>
   fst (x25519_gen (\<lambda>s::unit. ([1], s)) key_pair ()) \<noteq> Inl (KitError ''Invalid private key'') \<and>
   call_ok (public_key (BI 1)) \<and>
   fst (x25519_gen (\<lambda>s::unit. ([1], s)) (public_key (BI 1)) ()) \<noteq> Inl (KitError ''Invalid private key'')"
proof -
  have z: "key_int (Bytes (replicate 32 0)) = 0"
    by (simp add: U8_toBI_eq_0_iff)
  have ok: "call_ok (public_key (Bytes (replicate 32 0)))" "call_ok key_pair"
    "call_ok (public_key (BI 1))" by simp_all
  have o: "key_int (BI 1) \<noteq> 0" by simp
  show ?thesis
    using z o
      invalid_key_iff_zero_derive [OF ok(1), of "\<lambda>s::unit. ([1], s)" "()" "KitError ''Invalid private key''"]
      invalid_key_iff_zero_derive [OF ok(2), of "\<lambda>s::unit. ([1], s)" "()" "KitError ''Invalid private key''"]
      invalid_key_iff_zero_derive [OF ok(3), of "\<lambda>s::unit. ([1], s)" "()" "KitError ''Invalid private key''"]
    by (simp only: ok gen_call.inject gen_call.distinct key.inject simp_thms ex_simps)
qed

section \<open>Generated key pairs are rederivable\<close>

text \<open>
  Claim C7.  On either curve, a key pair that \<open>gen\<close> generates holds the private key the
  random source drew and a public key of the curve's width that decodes to the ladder
  result for the generator's u-coordinate and the clamped private scalar; deriving the
  public key from that private key returns the same pair.  The random source is taken not
  to draw a private key that decodes to 0 (the specification: the all-zero scalar is
  "never a legitimate output of correct random generation"; derivation rejects it).
\<close>

theorem key_pair_rederivable:
  assumes "U8_toBI (fst (ec_gen s)) \<noteq> 0"
  shows
    "(\<exists>Q d s'. x25519_gen ec_gen key_pair s = (Inr (KeyPair Q d), s') \<and>
        length Q = 32 \<and>
        U8_toBI Q = ladder (x25519_clamp (U8_toBI d)) (curve_Gx curve25519) (curve_p curve25519)
                      x25519_a24 255 \<and>
        (\<forall>ec_gen' t. x25519_gen ec_gen' (public_key (Bytes d)) t = (Inr (KeyPair Q d), t))) \<and>
     (\<exists>Q d s'. x448_gen ec_gen key_pair s = (Inr (KeyPair Q d), s') \<and>
        length Q = 56 \<and>
        U8_toBI Q = ladder (x448_clamp (U8_toBI d)) (curve_Gx curve448) (curve_p curve448)
                      x448_a24 448 \<and>
        (\<forall>ec_gen' t. x448_gen ec_gen' (public_key (Bytes d)) t = (Inr (KeyPair Q d), t)))"
proof (intro conjI)
  let ?d = "fst (ec_gen s)"
  show "\<exists>Q d s'. x25519_gen ec_gen key_pair s = (Inr (KeyPair Q d), s') \<and>
        length Q = 32 \<and>
        U8_toBI Q = ladder (x25519_clamp (U8_toBI d)) (curve_Gx curve25519) (curve_p curve25519)
                      x25519_a24 255 \<and>
        (\<forall>ec_gen' t. x25519_gen ec_gen' (public_key (Bytes d)) t = (Inr (KeyPair Q d), t))"
    using assms
    by (intro exI [of _ "x25519_Q (U8_toBI ?d)"] exI [of _ ?d] exI [of _ "snd (ec_gen s)"])
      (simp add: x25519_gen_key_pair x25519_Q_props x25519_gen_public_key_bytes
        del: x25519_gen.simps)
  show "\<exists>Q d s'. x448_gen ec_gen key_pair s = (Inr (KeyPair Q d), s') \<and>
        length Q = 56 \<and>
        U8_toBI Q = ladder (x448_clamp (U8_toBI d)) (curve_Gx curve448) (curve_p curve448)
                      x448_a24 448 \<and>
        (\<forall>ec_gen' t. x448_gen ec_gen' (public_key (Bytes d)) t = (Inr (KeyPair Q d), t))"
    using assms
    by (intro exI [of _ "x448_Q (U8_toBI ?d)"] exI [of _ ?d] exI [of _ "snd (ec_gen s)"])
      (simp add: x448_gen_key_pair x448_Q_props x448_gen_public_key_bytes
        del: x448_gen.simps)
qed

text \<open>An instance: the random source draws 32 bytes 0x01.\<close>

theorem key_pair_rederivable_witness:
  "U8_toBI (fst (const_gen (replicate 32 1) ())) \<noteq> 0 \<and>
   (\<exists>Q d s'. x25519_gen (const_gen (replicate 32 1)) key_pair () = (Inr (KeyPair Q d), s') \<and>
      length Q = 32 \<and> d = replicate 32 1 \<and>
      x25519_gen (const_gen (replicate 32 1)) (public_key (Bytes d)) () = (Inr (KeyPair Q d), ()))"
proof -
  have h: "U8_toBI (fst (const_gen (replicate 32 1) ())) \<noteq> 0"
    by (simp add: U8_toBI_eq_0_iff const_gen_def)
  from key_pair_rederivable [of "const_gen (replicate 32 1)" "()", OF h]
  obtain Q d s' where
    "x25519_gen (const_gen (replicate 32 1)) key_pair () = (Inr (KeyPair Q d), s')"
    "length Q = 32"
    "\<forall>ec_gen' t. x25519_gen ec_gen' (public_key (Bytes d)) (t::unit) = (Inr (KeyPair Q d), t)"
    by blast
  moreover from this(1) have "d = replicate 32 1"
    by (simp only: x25519_gen_key_pair const_gen_def fst_conv snd_conv prod.inject sum.inject
        gen_result.inject)
  ultimately show ?thesis using h by blast
qed

section \<open>Determinism\<close>

text \<open>
  Claim C9.  Deriving a public key does not read or advance the random source: its result
  is the same whatever the source and its state are, and the state is returned as it was.
  Key agreement has no access to the random source at all; its result depends only on the
  integers the two keys decode to.
\<close>

theorem derive_and_agree_deterministic:
  "fst (x25519_gen ec_gen1 (public_key s_key) s1) = fst (x25519_gen ec_gen2 (public_key s_key) s2) \<and>
   snd (x25519_gen ec_gen1 (public_key s_key) s1) = s1 \<and>
   fst (x448_gen ec_gen1 (public_key s_key) s1) = fst (x448_gen ec_gen2 (public_key s_key) s2) \<and>
   snd (x448_gen ec_gen1 (public_key s_key) s1) = s1 \<and>
   x25519_ecdh s_key p_key = x25519_ecdh (BI (key_int s_key)) (BI (key_int p_key)) \<and>
   x448_ecdh s_key p_key = x448_ecdh (BI (key_int s_key)) (BI (key_int p_key))"
proof -
  have a: "fst (x25519_gen ec_gen1 (public_key s_key) s1) = fst (x25519_gen ec_gen2 (public_key s_key) s2)"
    by (simp add: Let_def split: sum.splits)
  have b: "snd (x25519_gen ec_gen1 (public_key s_key) s1) = s1"
    by (simp add: Let_def split: sum.splits)
  have c: "fst (x448_gen ec_gen1 (public_key s_key) s1) = fst (x448_gen ec_gen2 (public_key s_key) s2)"
    by (simp add: Let_def split: sum.splits)
  have d: "snd (x448_gen ec_gen1 (public_key s_key) s1) = s1"
    by (simp add: Let_def split: sum.splits)
  have e: "x25519_ecdh s_key p_key = x25519_ecdh (BI (key_int s_key)) (BI (key_int p_key))"
    by (simp only: x25519_ecdh_eq key_int.simps)
  have f: "x448_ecdh s_key p_key = x448_ecdh (BI (key_int s_key)) (BI (key_int p_key))"
    by (simp only: x448_ecdh_eq key_int.simps)
  from a b c d e f show ?thesis by (intro conjI)
qed

section \<open>Widths of the byte strings\<close>

lemma U8_toBI_zeros: "U8_toBI (replicate m 0) = 0"
  by (simp add: U8_toBI_eq_0_iff)

text \<open>
  Claim C2 says that every shared secret is exactly 32 bytes (Curve A) or 56 bytes
  (Curve B).  Key agreement returns the encoded ladder result without the padding that
  \<open>gen\<close> applies to public keys: for the all-zero peer value the ladder result is 0 and
  the shared secret is the empty byte array, for every private key.
\<close>

theorem ecdh_zero_peer_not_fixed_width:
  "x25519_ecdh s_key (Bytes (replicate 32 0)) = [] \<and>
   x448_ecdh s_key (Bytes (replicate 56 0)) = []"
  by (simp only: x25519_ecdh_eq x448_ecdh_eq key_int.simps U8_toBI_zeros
      ladder_u0 [OF curve25519_p_bounds(3)] ladder_u0 [OF curve448_p_bounds(3)] U8_fromBI_0 order_refl)

text \<open>A shared secret is never longer than the curve's width.\<close>

lemma ecdh_length_le:
  "length (x25519_ecdh s_key p_key) \<le> 32 \<and> length (x448_ecdh s_key p_key) \<le> 56"
proof -
  have "ladder k u (curve_p curve25519) a24 bits < 256 ^ 32" for k u a24 bits
    using ladder_range [OF curve25519_p_bounds(1), of k u a24 bits] curve25519_p_bounds(2)
    by linarith
  moreover have "ladder k u (curve_p curve448) a24 bits < 256 ^ 56" for k u a24 bits
    using ladder_range [OF curve448_p_bounds(1), of k u a24 bits] curve448_p_bounds(2)
    by linarith
  ultimately show ?thesis
    by (simp only: x25519_ecdh_eq x448_ecdh_eq length_U8_fromBI)
qed

end
